theory Spec2Isabelle
  imports Main "HOL-Library.Multiset" "HOL-Library.Sublist" "HOL-Library.Word"
begin

section \<open>Strings\<close>

text \<open>
  A JavaScript string is modelled as a \<^typ>\<open>string\<close>: each \<^typ>\<open>char\<close> stands for the
  UTF-16 code unit of the same number, so the model covers the texts whose code units lie
  below 256. Among those, the code units that \<^verbatim>\<open>\s\<close> matches and that
  \<^verbatim>\<open>String.prototype.trim\<close> strips are tab, line feed, vertical tab, form feed,
  carriage return, space and the no-break space.
\<close>

definition is_space :: "char \<Rightarrow> bool" where
  "is_space c = (c \<in> set [CHR 0x09, CHR 0x0A, CHR 0x0B, CHR 0x0C, CHR 0x0D, CHR 0x20, CHR 0xA0])"

definition js_trim :: "string \<Rightarrow> string" where
  "js_trim s = rev (dropWhile is_space (rev (dropWhile is_space s)))"

text \<open>\<^verbatim>\<open>s.split(c)\<close> for a separator of one character: never empty, \<^verbatim>\<open>''.split(c)\<close> is \<^verbatim>\<open>['']\<close>.\<close>

fun split_on :: "char \<Rightarrow> string \<Rightarrow> string list" where
  "split_on c [] = [[]]"
| "split_on c (x # xs) =
     (case split_on c xs of
        [] \<Rightarrow> (if x = c then [[], []] else [[x]])
      | l # ls \<Rightarrow> (if x = c then [] # l # ls else (x # l) # ls))"

text \<open>
  The canonical form of a code unit under the \<^verbatim>\<open>i\<close> flag (without \<^verbatim>\<open>u\<close>): its upper case,
  except that a code unit from 128 on is never mapped below 128. Below 256 this changes
  the lower-case ASCII letters only, as far as the comparison with an ASCII pattern goes.
\<close>

definition canonicalize :: "char \<Rightarrow> char" where
  "canonicalize c =
     (case map_of (zip ''abcdefghijklmnopqrstuvwxyz'' ''ABCDEFGHIJKLMNOPQRSTUVWXYZ'') c of
        Some u \<Rightarrow> u
      | None \<Rightarrow> c)"

section \<open>The required section patterns\<close>

text \<open>
  The five regular expressions of \<^verbatim>\<open>REQUIRED_SECTIONS\<close> are sequences of three kinds of
  token: a literal (compared under the \<^verbatim>\<open>i\<close> flag), \<^verbatim>\<open>\s+\<close> and \<^verbatim>\<open>\s*\<close>. All are anchored
  at the start by \<^verbatim>\<open>^\<close> and none is anchored at the end. In each of them a whitespace token
  is followed by a literal that starts with a character that is not whitespace, so the
  greedy match of the whitespace token is the only one that can succeed and the matcher
  needs no backtracking.
\<close>

datatype tok = Lit string | WsPlus | WsStar

fun match_toks :: "tok list \<Rightarrow> string \<Rightarrow> bool" where
  "match_toks [] s = True"
| "match_toks (Lit l # ts) s =
     (length l \<le> length s \<and> map canonicalize (take (length l) s) = map canonicalize l
      \<and> match_toks ts (drop (length l) s))"
| "match_toks (WsPlus # ts) s =
     (case s of [] \<Rightarrow> False | c # _ \<Rightarrow> is_space c \<and> match_toks ts (dropWhile is_space s))"
| "match_toks (WsStar # ts) s = match_toks ts (dropWhile is_space s)"

definition REQUIRED_SECTIONS :: "tok list list" where
  "REQUIRED_SECTIONS =
    [ [Lit ''##'', WsPlus, Lit ''Role'', WsStar, Lit ''/'', WsStar, Lit ''Identity''],
      [Lit ''##'', WsPlus, Lit ''Context'', WsStar, Lit ''&'', WsStar, Lit ''Tech'', WsPlus, Lit ''Stack''],
      [Lit ''##'', WsPlus, Lit ''Project'', WsPlus, Lit ''Layout''],
      [Lit ''##'', WsPlus, Lit ''Coding'', WsPlus, Lit ''Standards''],
      [Lit ''##'', WsPlus, Lit ''Workflow'', WsStar, Lit ''&'', WsStar, Lit ''Commands''] ]"

section \<open>hasValidStructure\<close>

text \<open>
  The body of the loop over the lines: every pattern that the trimmed line matches sets
  its flag; the other flags keep their value.
\<close>

definition mark_line :: "tok list list \<Rightarrow> string \<Rightarrow> bool list \<Rightarrow> bool list" where
  "mark_line patterns line foundSections =
     map (\<lambda>(pattern, found). if match_toks pattern (js_trim line) then True else found)
       (zip patterns foundSections)"

definition found_sections :: "tok list list \<Rightarrow> string \<Rightarrow> bool list" where
  "found_sections patterns doc =
     fold (mark_line patterns) (split_on CHR 0x0A doc) (map (\<lambda>_. False) patterns)"

definition hasValidStructure :: "string \<Rightarrow> bool" where
  "hasValidStructure doc = list_all (\<lambda>found. found) (found_sections REQUIRED_SECTIONS doc)"

section \<open>The structure script (check-structure)\<close>

text \<open>
  The script keeps the headings as strings (its \<^verbatim>\<open>REQUIRED_SECTIONS\<close>) beside the patterns
  (its \<^verbatim>\<open>SECTION_PATTERNS\<close>), runs the same loop and returns the names of the headings whose
  flag is still unset. Its \<^verbatim>\<open>validateTemplate(filePath)\<close> reads the file first; the file
  system is the parameter \<open>readFile\<close>. The names of the script carry its name in front
  where the command line tool has the same name for something else, and the field
  \<^verbatim>\<open>valid\<close> of its result is \<open>sections_valid\<close>.
\<close>

datatype js_error = TypeError | YAMLException | ModuleNotFound | IOError

definition check_structure_REQUIRED_SECTIONS :: "string list" where
  "check_structure_REQUIRED_SECTIONS =
    [''## Role / Identity'', ''## Context & Tech Stack'', ''## Project Layout'',
     ''## Coding Standards'', ''## Workflow & Commands'']"

definition check_structure_SECTION_PATTERNS :: "tok list list" where
  "check_structure_SECTION_PATTERNS =
    [ [Lit ''##'', WsPlus, Lit ''Role'', WsStar, Lit ''/'', WsStar, Lit ''Identity''],
      [Lit ''##'', WsPlus, Lit ''Context'', WsStar, Lit ''&'', WsStar, Lit ''Tech'', WsPlus, Lit ''Stack''],
      [Lit ''##'', WsPlus, Lit ''Project'', WsPlus, Lit ''Layout''],
      [Lit ''##'', WsPlus, Lit ''Coding'', WsPlus, Lit ''Standards''],
      [Lit ''##'', WsPlus, Lit ''Workflow'', WsStar, Lit ''&'', WsStar, Lit ''Commands''] ]"

record StructureCheck =
  sections_valid :: bool
  missingSections :: "string list"

definition check_structure :: "string \<Rightarrow> StructureCheck" where
  "check_structure doc =
     (let foundSections = found_sections check_structure_SECTION_PATTERNS doc;
          missing = map snd (filter (\<lambda>(found, name). \<not> found)
                      (zip foundSections check_structure_REQUIRED_SECTIONS))
      in \<lparr>sections_valid = (length missing = 0), missingSections = missing\<rparr>)"

definition check_structure_validateTemplate ::
  "(string \<Rightarrow> js_error + string) \<Rightarrow> string \<Rightarrow> js_error + StructureCheck" where
  "check_structure_validateTemplate readFile filePath =
     (case readFile filePath of Inl e \<Rightarrow> Inl e | Inr doc \<Rightarrow> Inr (check_structure doc))"

section \<open>JavaScript values\<close>

text \<open>
  What \<^verbatim>\<open>yaml.load\<close> hands to the program is a JavaScript value of any shape; the type
  annotation \<^verbatim>\<open>as TemplateFrontmatter\<close> checks nothing at run time, and the validator tests
  the shapes itself. The model has the values undefined, null, booleans, integers,
  strings, arrays and plain objects (own properties in an association list, read with
  \<^const>\<open>map_of\<close>). The integers are those from \<open>- 2\<^sup>5\<^sup>3\<close> to \<open>2\<^sup>5\<^sup>3 - 1\<close>, the signed values
  of a word of 54 bits: a JavaScript number holds each of them exactly and prints it digit
  by digit. Other numbers (larger ones, numbers with a fraction, NaN) and dates are left
  out.
\<close>

datatype jsval =
    JUndefined
  | JNull
  | JBool bool
  | JNum "54 word"
  | JStr string
  | JArr "jsval list"
  | JObj "(string \<times> jsval) list"

text \<open>Truthiness, as \<^verbatim>\<open>!x\<close> and \<^verbatim>\<open>x && y\<close> test it.\<close>

fun truthy :: "jsval \<Rightarrow> bool" where
  "truthy JUndefined = False"
| "truthy JNull = False"
| "truthy (JBool b) = b"
| "truthy (JNum n) = (n \<noteq> 0)"
| "truthy (JStr s) = (s \<noteq> [])"
| "truthy (JArr xs) = True"
| "truthy (JObj kvs) = True"

text \<open>
  The property read \<^verbatim>\<open>x.key\<close> on a value that is neither undefined nor null, for a key
  that no prototype defines (as \<^verbatim>\<open>title\<close>, \<^verbatim>\<open>category\<close>, \<^verbatim>\<open>tags\<close>, \<^verbatim>\<open>difficulty\<close>,
  \<^verbatim>\<open>requires\<close>, \<^verbatim>\<open>combinableWith\<close>): an own property of an object, undefined otherwise.
  The program reads properties only behind a truthiness test of the value.
\<close>

fun get_prop :: "jsval \<Rightarrow> string \<Rightarrow> jsval" where
  "get_prop (JObj kvs) key = (case map_of kvs key of Some v \<Rightarrow> v | None \<Rightarrow> JUndefined)"
| "get_prop _ key = JUndefined"

fun isArray :: "jsval \<Rightarrow> bool" where
  "isArray (JArr xs) = True"
| "isArray _ = False"

text \<open>\<^verbatim>\<open>xs.includes(v)\<close> for an array \<open>xs\<close> of strings: only a string can be found.\<close>

fun array_includes :: "string list \<Rightarrow> jsval \<Rightarrow> bool" where
  "array_includes xs (JStr s) = (s \<in> set xs)"
| "array_includes xs _ = False"

text \<open>
  The method call \<^verbatim>\<open>x.includes(s)\<close> on a value read from the frontmatter, for a string \<open>s\<close>:
  membership for an array, the substring test for a string, and a TypeError for every
  other value (undefined and null have no properties, and no other value has a callable
  \<^verbatim>\<open>includes\<close>: a YAML mapping with that key holds a value that is not a function).
\<close>

fun call_includes :: "jsval \<Rightarrow> string \<Rightarrow> js_error + bool" where
  "call_includes (JArr xs) s = Inr (JStr s \<in> set xs)"
| "call_includes (JStr t) s = Inr (sublist s t)"
| "call_includes _ s = Inl TypeError"

text \<open>
  The decimal digits of an integer that is not negative, and the decimal form of an
  integer.
\<close>

function decimal_digits :: "int \<Rightarrow> string" where
  "decimal_digits i =
     (if i < 10 then [''0123456789'' ! nat i]
      else decimal_digits (i div 10) @ [''0123456789'' ! nat (i mod 10)])"
  by pat_completeness auto
termination
  by (relation "measure (\<lambda>i. nat i)") auto

definition string_of_int :: "int \<Rightarrow> string" where
  "string_of_int i = (if i < 0 then ''-'' @ decimal_digits (- i) else decimal_digits i)"

text \<open>
  The conversion to a string that a template literal applies to the value it embeds.
  An array is joined with commas, undefined and null elements giving the empty string.
  A plain object prints as \<^verbatim>\<open>[object Object]\<close> through the inherited \<^verbatim>\<open>toString\<close>; when it has
  an own property \<^verbatim>\<open>toString\<close> (a YAML key, so not a function) neither that nor \<^verbatim>\<open>valueOf\<close>
  gives a primitive and the conversion throws a TypeError. The integers of the model
  print in decimal.
\<close>

fun js_to_string :: "jsval \<Rightarrow> js_error + string"
  and js_join :: "jsval list \<Rightarrow> js_error + string" where
  "js_to_string JUndefined = Inr ''undefined''"
| "js_to_string JNull = Inr ''null''"
| "js_to_string (JBool b) = Inr (if b then ''true'' else ''false'')"
| "js_to_string (JNum n) = Inr (string_of_int (sint n))"
| "js_to_string (JStr s) = Inr s"
| "js_to_string (JArr xs) = js_join xs"
| "js_to_string (JObj kvs) =
     (if ''toString'' \<in> fst ` set kvs then Inl TypeError else Inr ''[object Object]'')"
| "js_join [] = Inr []"
| "js_join (x # xs) =
     (case (if x = JUndefined \<or> x = JNull then Inr [] else js_to_string x) of
        Inl e \<Rightarrow> Inl e
      | Inr s \<Rightarrow>
          (if xs = [] then Inr s
           else (case js_join xs of Inl e \<Rightarrow> Inl e | Inr r \<Rightarrow> Inr (s @ '','' @ r))))"

text \<open>\<^verbatim>\<open>xs.join(sep)\<close> for an array of strings.\<close>

fun join :: "string \<Rightarrow> string list \<Rightarrow> string" where
  "join sep [] = []"
| "join sep [x] = x"
| "join sep (x # y # ys) = x @ sep @ join sep (y # ys)"

section \<open>The validator\<close>

record ValidationResult =
  valid :: bool
  errors :: "string list"
  warnings :: "string list"

definition VALID_CATEGORIES :: "string list" where
  "VALID_CATEGORIES = [''language'', ''framework'', ''role'']"

definition VALID_DIFFICULTIES :: "string list" where
  "VALID_DIFFICULTIES = [''beginner'', ''intermediate'', ''advanced'']"

text \<open>A name between double quotes, as the messages print it.\<close>

definition quoted :: "string \<Rightarrow> string" where
  "quoted name = [CHR 0x22] @ name @ [CHR 0x22]"

text \<open>
  \<^verbatim>\<open>validateFrontmatter\<close> is a sequence of tests, each pushing onto \<^verbatim>\<open>errors\<close> or
  \<^verbatim>\<open>warnings\<close>. Each test is a function here that returns what it pushes; the two tests
  whose message embeds the value can throw.
\<close>

definition title_errors :: "jsval \<Rightarrow> string list" where
  "title_errors v = (if \<not> truthy v then [''Missing required field: title''] else [])"

definition category_errors :: "jsval \<Rightarrow> js_error + string list" where
  "category_errors v =
     (if \<not> truthy v then Inr [''Missing required field: category'']
      else if \<not> array_includes VALID_CATEGORIES v then
        (case js_to_string v of
           Inl e \<Rightarrow> Inl e
         | Inr s \<Rightarrow> Inr [''Invalid category: '' @ s @ ''. Must be one of: ''
                          @ join '', '' VALID_CATEGORIES])
      else Inr [])"

text \<open>The test of \<^verbatim>\<open>tags\<close>: the errors and the warnings it pushes.\<close>

definition tags_messages :: "jsval \<Rightarrow> string list \<times> string list" where
  "tags_messages v =
     (if \<not> truthy v then ([''Missing required field: tags''], [])
      else if \<not> isArray v then ([''Field '' @ quoted ''tags'' @ '' must be an array''], [])
      else if (case v of JArr xs \<Rightarrow> length xs = 0 | _ \<Rightarrow> False) then ([], [''Field '' @ quoted ''tags'' @ '' is empty''])
      else ([], []))"

definition difficulty_errors :: "jsval \<Rightarrow> js_error + string list" where
  "difficulty_errors v =
     (if \<not> truthy v then Inr [''Missing required field: difficulty'']
      else if \<not> array_includes VALID_DIFFICULTIES v then
        (case js_to_string v of
           Inl e \<Rightarrow> Inl e
         | Inr s \<Rightarrow> Inr [''Invalid difficulty: '' @ s @ ''. Must be one of: ''
                          @ join '', '' VALID_DIFFICULTIES])
      else Inr [])"

definition optional_array_warnings :: "string \<Rightarrow> jsval \<Rightarrow> string list" where
  "optional_array_warnings name v =
     (if truthy v \<and> \<not> isArray v then [''Field '' @ quoted name @ '' should be an array''] else [])"

definition validateFrontmatter :: "jsval \<Rightarrow> js_error + ValidationResult" where
  "validateFrontmatter fm =
     (if \<not> truthy fm then
        Inr \<lparr>valid = True, errors = [],
             warnings = [''No frontmatter found (will be added in Phase 4)'']\<rparr>
      else
        (case category_errors (get_prop fm ''category'') of
           Inl e \<Rightarrow> Inl e
         | Inr category_errs \<Rightarrow>
        (case difficulty_errors (get_prop fm ''difficulty'') of
           Inl e \<Rightarrow> Inl e
         | Inr difficulty_errs \<Rightarrow>
             (let tags = tags_messages (get_prop fm ''tags'');
                  errs = title_errors (get_prop fm ''title'') @ category_errs @ fst tags
                         @ difficulty_errs;
                  warns = snd tags
                         @ optional_array_warnings ''requires'' (get_prop fm ''requires'')
                         @ optional_array_warnings ''combinableWith''
                             (get_prop fm ''combinableWith'')
              in Inr \<lparr>valid = (length errs = 0), errors = errs, warnings = warns\<rparr>))))"

text \<open>
  The record of a loaded file. Its fields \<^verbatim>\<open>id\<close> and \<^verbatim>\<open>hasValidStructure\<close> carry a prime here:
  the first name is HOL's identity function, the second the function above.
\<close>

record Template =
  path :: string
  filename :: string
  id' :: string
  frontmatter :: jsval
  content :: string
  hasValidStructure' :: bool

definition validateStructure :: "Template \<Rightarrow> ValidationResult" where
  "validateStructure t =
     (if \<not> hasValidStructure' t then
        \<lparr>valid = False, errors = [''Missing one or more required sections''],
         warnings = [''Required sections: Role/Identity, Context & Tech Stack, Project Layout, Coding Standards, Workflow & Commands'']\<rparr>
      else \<lparr>valid = True, errors = [], warnings = []\<rparr>)"

definition validateTemplate :: "Template \<Rightarrow> bool \<Rightarrow> js_error + ValidationResult" where
  "validateTemplate t strict =
     (case validateFrontmatter (frontmatter t) of
        Inl e \<Rightarrow> Inl e
      | Inr frontmatterResult \<Rightarrow>
          (let structureResult = validateStructure t;
               errs = errors frontmatterResult @ errors structureResult;
               warns = warnings frontmatterResult @ warnings structureResult;
               errs' = (if strict then errs @ warns else errs);
               warns' = (if strict then [] else warns)
           in Inr \<lparr>valid = (length errs' = 0), errors = errs', warnings = warns'\<rparr>))"

text \<open>
  The classification the validate command prints from a result: invalid when there is
  an error, else valid with warnings when there is a warning, else valid.
\<close>

datatype classification = Invalid | ValidWithWarnings | Valid

definition classify :: "ValidationResult \<Rightarrow> classification" where
  "classify r = (if \<not> valid r then Invalid else if warnings r \<noteq> [] then ValidWithWarnings else Valid)"

fun rank :: "classification \<Rightarrow> nat" where
  "rank Invalid = 0"
| "rank ValidWithWarnings = 1"
| "rank Valid = 2"

section \<open>Filtering\<close>

text \<open>
  The criteria of \<^verbatim>\<open>filterTemplates\<close>: each is a string or missing. The code tests
  \<^verbatim>\<open>filters.category && ...\<close>, so a criterion takes part only when it is a string that is
  not empty.
\<close>

record Filters =
  category :: "string option"
  tag :: "string option"
  difficulty :: "string option"

fun supplied :: "string option \<Rightarrow> bool" where
  "supplied None = False"
| "supplied (Some s) = (s \<noteq> [])"

text \<open>The callback of \<^verbatim>\<open>templates.filter\<close>. Only the call \<^verbatim>\<open>tags.includes\<close> can throw.\<close>

definition keep_template :: "Filters \<Rightarrow> Template \<Rightarrow> js_error + bool" where
  "keep_template f t =
     (if \<not> truthy (frontmatter t) then Inr False
      else if supplied (category f) \<and> get_prop (frontmatter t) ''category'' \<noteq> JStr (the (category f))
        then Inr False
      else
        (case (if supplied (tag f)
               then call_includes (get_prop (frontmatter t) ''tags'') (the (tag f))
               else Inr True) of
           Inl e \<Rightarrow> Inl e
         | Inr tagged \<Rightarrow>
             (if \<not> tagged then Inr False
              else if supplied (difficulty f)
                      \<and> get_prop (frontmatter t) ''difficulty'' \<noteq> JStr (the (difficulty f))
                then Inr False
              else Inr True)))"

text \<open>\<^verbatim>\<open>Array.prototype.filter\<close> with a callback that can throw: the first throw ends the call.\<close>

fun filter_throwing :: "('a \<Rightarrow> js_error + bool) \<Rightarrow> 'a list \<Rightarrow> js_error + 'a list" where
  "filter_throwing p [] = Inr []"
| "filter_throwing p (x # xs) =
     (case p x of
        Inl e \<Rightarrow> Inl e
      | Inr b \<Rightarrow>
          (case filter_throwing p xs of
             Inl e \<Rightarrow> Inl e
           | Inr ys \<Rightarrow> Inr (if b then x # ys else ys)))"

definition filterTemplates :: "Template list \<Rightarrow> Filters \<Rightarrow> js_error + Template list" where
  "filterTemplates templates f = filter_throwing (keep_template f) templates"

section \<open>Frontmatter extraction\<close>

text \<open>
  \<^verbatim>\<open>/^---\s*\n([\s\S]*?)\n---\s*\n/\<close> matched at the start of the text. After the three
  dashes the greedy \<^verbatim>\<open>\s*\<close> takes whitespace and must leave a line feed for the \<^verbatim>\<open>\n\<close>
  that follows; it tries the longest run first. \<open>after_open\<close> lists, in that order,
  what is left of the text after \<^verbatim>\<open>\s*\n\<close>. The lazy group then takes the shortest text
  that is followed by a line feed, three dashes, and whitespace holding a line feed
  (\<open>find_close\<close>); the first candidate for which it finds one gives the match.
\<close>

fun after_open :: "string \<Rightarrow> string list" where
  "after_open [] = []"
| "after_open (c # cs) =
     (if is_space c then after_open cs @ (if c = CHR 0x0A then [cs] else []) else [])"

definition closes_line :: "string \<Rightarrow> bool" where
  "closes_line s = (CHR 0x0A \<in> set (takeWhile is_space s))"

fun find_close :: "string \<Rightarrow> string option" where
  "find_close [] = None"
| "find_close (c # cs) =
     (if take 4 (c # cs) = CHR 0x0A # ''---'' \<and> closes_line (drop 4 (c # cs)) then Some []
      else map_option (\<lambda>body. c # body) (find_close cs))"

fun first_some :: "('a \<Rightarrow> 'b option) \<Rightarrow> 'a list \<Rightarrow> 'b option" where
  "first_some f [] = None"
| "first_some f (x # xs) = (case f x of Some y \<Rightarrow> Some y | None \<Rightarrow> first_some f xs)"

definition extractFrontmatter :: "string \<Rightarrow> string option" where
  "extractFrontmatter doc =
     (if take 3 doc = ''---'' then first_some find_close (after_open (drop 3 doc)) else None)"

section \<open>Frontmatter parsing\<close>

text \<open>
  js-yaml is a library outside the repository: \<^verbatim>\<open>yaml.load\<close> is the parameter \<open>yaml_load\<close>,
  which returns a value or throws. The command line tool's \<^verbatim>\<open>parseFrontmatter\<close> catches
  what it throws and returns null.
\<close>

definition parseFrontmatter :: "(string \<Rightarrow> js_error + jsval) \<Rightarrow> string \<Rightarrow> js_error + jsval" where
  "parseFrontmatter yaml_load yamlString =
     (case yaml_load yamlString of Inr v \<Rightarrow> Inr v | Inl e \<Rightarrow> Inr JNull)"












section \<open>Loading a template\<close>

text \<open>\<^verbatim>\<open>path.basename\<close> for POSIX paths: the part after the last slash, trailing slashes aside.\<close>

definition basename :: "string \<Rightarrow> string" where
  "basename p =
     rev (takeWhile (\<lambda>c. c \<noteq> CHR ''/'') (dropWhile (\<lambda>c. c = CHR ''/'') (rev p)))"

text \<open>\<^verbatim>\<open>s.replace(pat, rep)\<close> with a string pattern: the first occurrence only.\<close>

fun replace_first :: "string \<Rightarrow> string \<Rightarrow> string \<Rightarrow> string" where
  "replace_first pat rep [] = (if pat = [] then rep else [])"
| "replace_first pat rep (c # cs) =
     (if prefix pat (c # cs) then rep @ drop (length pat) (c # cs)
      else c # replace_first pat rep cs)"

definition loadTemplate ::
  "(string \<Rightarrow> js_error + jsval) \<Rightarrow> (string \<Rightarrow> js_error + string) \<Rightarrow> string
     \<Rightarrow> js_error + Template" where
  "loadTemplate yaml_load readFile filePath =
     (case readFile filePath of
        Inl e \<Rightarrow> Inl e
      | Inr doc \<Rightarrow>
          (case (case extractFrontmatter doc of
                   None \<Rightarrow> Inr JUndefined
                 | Some frontmatterString \<Rightarrow>
                     (if frontmatterString \<noteq> [] then parseFrontmatter yaml_load frontmatterString
                      else Inr JUndefined)) of
             Inl e \<Rightarrow> Inl e
           | Inr fm \<Rightarrow>
               Inr \<lparr>path = filePath, filename = basename filePath,
                    id' = replace_first ''.md'' [] (basename filePath),
                    frontmatter = fm, content = doc,
                    hasValidStructure' = hasValidStructure doc\<rparr>))"

section \<open>Notions used to state the properties\<close>

text \<open>Line \<open>i\<close> of the patterns has a match among the lines of the document.\<close>

definition section_found :: "tok list list \<Rightarrow> nat \<Rightarrow> string \<Rightarrow> bool" where
  "section_found patterns i doc =
     list_ex (\<lambda>l. match_toks (patterns ! i) (js_trim l)) (split_on CHR 0x0A doc)"

text \<open>
  The texts a pattern describes, read as a regular expression: every way of cutting the
  text into the parts that the tokens match counts, not only the greedy one.
\<close>

fun heading_shape :: "tok list \<Rightarrow> string \<Rightarrow> bool" where
  "heading_shape [] s = True"
| "heading_shape (Lit l # ts) s =
     (\<exists>u r. s = u @ r \<and> length u = length l \<and> map canonicalize u = map canonicalize l
        \<and> heading_shape ts r)"
| "heading_shape (WsPlus # ts) s =
     (\<exists>w r. s = w @ r \<and> w \<noteq> [] \<and> list_all is_space w \<and> heading_shape ts r)"
| "heading_shape (WsStar # ts) s =
     (\<exists>w r. s = w @ r \<and> list_all is_space w \<and> heading_shape ts r)"

text \<open>
  The condition under which the greedy matcher decides a pattern: each whitespace token
  stands before a literal whose first character is not whitespace.
\<close>

fun starts_solid :: "tok list \<Rightarrow> bool" where
  "starts_solid (Lit (c # _) # _) = (\<not> is_space c)"
| "starts_solid _ = False"

fun greedy_ok :: "tok list \<Rightarrow> bool" where
  "greedy_ok [] = True"
| "greedy_ok (Lit l # ts) = greedy_ok ts"
| "greedy_ok (WsPlus # ts) = (starts_solid ts \<and> greedy_ok ts)"
| "greedy_ok (WsStar # ts) = (starts_solid ts \<and> greedy_ok ts)"

text \<open>
  The case and spacing variants of a heading, from its name as the structure script
  writes it (\<^verbatim>\<open>## Role / Identity\<close>): the words of the name in their order, each in any
  letter case, with at least one whitespace character between two words and any
  whitespace, or none, on either side of \<^verbatim>\<open>/\<close> and \<^verbatim>\<open>&\<close>; anything may follow the name. A
  line is a variant when it has this shape once its leading and trailing whitespace is
  stripped.
\<close>

fun gaps :: "string list \<Rightarrow> tok list" where
  "gaps [] = []"
| "gaps [w] = [Lit w]"
| "gaps (w # v # ws) =
     Lit w # (if w \<in> {''/'', ''&''} \<or> v \<in> {''/'', ''&''} then WsStar else WsPlus) # gaps (v # ws)"

definition heading_tokens :: "string \<Rightarrow> tok list" where
  "heading_tokens name = gaps (filter (\<lambda>w. w \<noteq> []) (split_on CHR '' '' name))"

definition is_variant :: "string \<Rightarrow> string \<Rightarrow> bool" where
  "is_variant name line = heading_shape (heading_tokens name) (js_trim line)"

section \<open>Example documents\<close>

definition example_lines :: "string list" where
  "example_lines =
     [''# Title'', ''## Role / Identity'', ''## context&tech  stack'', ''  ## Project Layout'',
      ''##   Coding Standards  '', ''## WORKFLOW & COMMANDS (daily)'']"

definition example_doc :: string where
  "example_doc = join [CHR 0x0A] example_lines"

text \<open>The example document without its Project Layout line, and without its Coding Standards line.\<close>

definition example_no_layout :: string where
  "example_no_layout = join [CHR 0x0A] (take 3 example_lines @ drop 4 example_lines)"

definition example_no_standards :: string where
  "example_no_standards = join [CHR 0x0A] (take 4 example_lines @ drop 5 example_lines)"

text \<open>A template record for a document, as \<^verbatim>\<open>loadTemplate\<close> builds it when the file has no frontmatter.\<close>

definition plain_template :: "string \<Rightarrow> string \<Rightarrow> Template" where
  "plain_template name doc =
     \<lparr>path = ''templates/'' @ name @ ''.md'', filename = name @ ''.md'', id' = name,
      frontmatter = JUndefined, content = doc, hasValidStructure' = hasValidStructure doc\<rparr>"

text \<open>The first three letters of the five heading names, in canonical form.\<close>

definition heading_keys :: "string list" where
  "heading_keys = [''ROL'', ''CON'', ''PRO'', ''COD'', ''WOR'']"

text \<open>The document without the lines that are variants of a heading.\<close>

definition without_heading :: "string \<Rightarrow> string \<Rightarrow> string" where
  "without_heading name doc =
     join [CHR 0x0A] (filter (\<lambda>l. \<not> is_variant name l) (split_on CHR 0x0A doc))"


section \<open>Example records\<close>

text \<open>
  A record with complete frontmatter whose list of tags is empty, over the example
  document; and a record whose category is a YAML mapping with the key \<^verbatim>\<open>toString\<close>.
\<close>

definition example_empty_tags :: Template where
  "example_empty_tags =
     \<lparr>path = ''templates/roles/auditor.md'', filename = ''auditor.md'', id' = ''auditor'',
      frontmatter = JObj [(''title'', JStr ''Auditor''), (''category'', JStr ''role''),
                          (''tags'', JArr []), (''difficulty'', JStr ''advanced'')],
      content = example_doc, hasValidStructure' = hasValidStructure example_doc\<rparr>"


section \<open>Notions used to state the properties of the filter\<close>

text \<open>
  A record satisfies the supplied criteria: it has metadata, its category and its
  difficulty are the supplied ones, and the supplied tag is an element of its list of
  tags.
\<close>

definition satisfies :: "Filters \<Rightarrow> Template \<Rightarrow> bool" where
  "satisfies f t =
     (truthy (frontmatter t)
      \<and> (if supplied (category f)
          then get_prop (frontmatter t) ''category'' = JStr (the (category f)) else True)
      \<and> (if supplied (tag f)
          then (case get_prop (frontmatter t) ''tags'' of
                  JArr xs \<Rightarrow> JStr (the (tag f)) \<in> set xs
                | _ \<Rightarrow> False)
          else True)
      \<and> (if supplied (difficulty f)
          then get_prop (frontmatter t) ''difficulty'' = JStr (the (difficulty f)) else True))"

text \<open>The tags of a record with metadata are a list, as the declared type has it.\<close>

definition tags_listed :: "Template \<Rightarrow> bool" where
  "tags_listed t = (if truthy (frontmatter t) then isArray (get_prop (frontmatter t) ''tags'') else True)"


definition no_filters :: Filters where
  "no_filters = \<lparr>category = None, tag = None, difficulty = None\<rparr>"

text \<open>Example records: metadata without tags, with tags written as one string, and complete.\<close>

definition example_no_tags :: Template where
  "example_no_tags =
     \<lparr>path = ''templates/frameworks/bare.md'', filename = ''bare.md'', id' = ''bare'',
      frontmatter = JObj [(''title'', JStr ''Bare''), (''category'', JStr ''framework''),
                          (''difficulty'', JStr ''beginner'')],
      content = example_doc, hasValidStructure' = True\<rparr>"

definition example_string_tags :: Template where
  "example_string_tags =
     \<lparr>path = ''templates/frameworks/flat.md'', filename = ''flat.md'', id' = ''flat'',
      frontmatter = JObj [(''title'', JStr ''Flat''), (''category'', JStr ''framework''),
                          (''tags'', JStr ''frontend''), (''difficulty'', JStr ''beginner'')],
      content = example_doc, hasValidStructure' = True\<rparr>"

definition example_react :: Template where
  "example_react =
     \<lparr>path = ''templates/frameworks/react.md'', filename = ''react.md'', id' = ''react'',
      frontmatter = JObj [(''title'', JStr ''React''), (''category'', JStr ''framework''),
                          (''tags'', JArr [JStr ''frontend'', JStr ''react'']),
                          (''difficulty'', JStr ''intermediate'')],
      content = example_doc, hasValidStructure' = True\<rparr>"

definition example_fastapi :: Template where
  "example_fastapi =
     \<lparr>path = ''templates/frameworks/fastapi.md'', filename = ''fastapi.md'', id' = ''fastapi'',
      frontmatter = JObj [(''title'', JStr ''FastAPI''), (''category'', JStr ''framework''),
                          (''tags'', JArr [JStr ''backend'', JStr ''python'']),
                          (''difficulty'', JStr ''intermediate'')],
      content = example_doc, hasValidStructure' = True\<rparr>"

section \<open>Notions used to state the properties of the frontmatter\<close>

text \<open>
  A line that holds only the three dashes: the dashes, and after them nothing but
  whitespace (a carriage return before the line feed, trailing blanks). A document has the
  pair of delimiters when its first line is such a line and a later line is one too.
\<close>

definition delimiter_line :: "string \<Rightarrow> bool" where
  "delimiter_line l = (take 3 l = ''---'' \<and> list_all is_space (drop 3 l))"

definition has_delimiter_pair :: "string \<Rightarrow> bool" where
  "has_delimiter_pair doc =
     (case split_on CHR 0x0A doc of
        [] \<Rightarrow> False
      | first # later \<Rightarrow> delimiter_line first \<and> list_ex delimiter_line later)"

text \<open>Example documents: a heading before the dashes, and a document with frontmatter.\<close>

definition example_late_dashes :: string where
  "example_late_dashes =
     join [CHR 0x0A] [''# Title'', ''---'', ''title: x'', ''---'', ''body'']"

definition example_frontmatter_doc :: string where
  "example_frontmatter_doc =
     join [CHR 0x0A] [''--- '', ''title: x'', ''tags: [a, b]'', ''---'', ''## Role / Identity'', []]"

section \<open>Notions used to state the properties of the line parser\<close>











section \<open>Lemmas\<close>

subsection \<open>The loop of the structure check\<close>

lemma length_mark_line:
  "length foundSections = length patterns \<Longrightarrow>
   length (mark_line patterns line foundSections) = length patterns"
  by (simp add: mark_line_def)

lemma nth_mark_line:
  "length foundSections = length patterns \<Longrightarrow> i < length patterns \<Longrightarrow>
   mark_line patterns line foundSections ! i =
     (match_toks (patterns ! i) (js_trim line) \<or> foundSections ! i)"
  by (simp add: mark_line_def)

lemma fold_mark_line:
  "length foundSections = length patterns \<Longrightarrow>
   length (fold (mark_line patterns) ls foundSections) = length patterns \<and>
   (\<forall>i < length patterns.
      fold (mark_line patterns) ls foundSections ! i =
        (foundSections ! i \<or> (\<exists>l \<in> set ls. match_toks (patterns ! i) (js_trim l))))"
proof (induction ls arbitrary: foundSections)
  case Nil
  then show ?case by simp
next
  case (Cons l ls)
  have len: "length (mark_line patterns l foundSections) = length patterns"
    using Cons.prems by (rule length_mark_line)
  from Cons.IH [OF len] show ?case
    using Cons.prems by (auto simp: nth_mark_line)
qed

lemma length_found_sections: "length (found_sections patterns doc) = length patterns"
  using fold_mark_line [of "map (\<lambda>_. False) patterns" patterns "split_on CHR 0x0A doc"]
  by (simp add: found_sections_def)

lemma found_sections_nth:
  "i < length patterns \<Longrightarrow> found_sections patterns doc ! i = section_found patterns i doc"
  using fold_mark_line [of "map (\<lambda>_. False) patterns" patterns "split_on CHR 0x0A doc"]
  by (simp add: found_sections_def section_found_def list_ex_iff)

lemma found_sections_eq:
  "found_sections patterns doc = map (\<lambda>i. section_found patterns i doc) [0..<length patterns]"
  by (rule nth_equalityI) (simp_all add: length_found_sections found_sections_nth)

lemma found_sections_set_cong:
  "set (split_on CHR 0x0A d') = set (split_on CHR 0x0A d) \<Longrightarrow>
   found_sections patterns d' = found_sections patterns d"
  by (simp add: found_sections_eq section_found_def list_ex_iff)

lemma hasValidStructure_iff:
  "hasValidStructure doc = (\<forall>i < length REQUIRED_SECTIONS. section_found REQUIRED_SECTIONS i doc)"
  by (auto simp: hasValidStructure_def found_sections_eq list_all_iff)

subsection \<open>Splitting and joining\<close>

lemma split_on_not_Nil: "split_on c s \<noteq> []"
  by (induction s) (auto split: list.splits)

lemma split_on_no_sep: "l \<in> set (split_on c s) \<Longrightarrow> c \<notin> set l"
  by (induction s arbitrary: l) (auto split: list.splits if_splits)

lemma split_on_plain: "c \<notin> set l \<Longrightarrow> split_on c l = [l]"
  by (induction l) auto

lemma split_on_append_sep:
  "c \<notin> set l \<Longrightarrow> split_on c (l @ c # s) = l # split_on c s"
  using split_on_not_Nil [of c s]
  by (induction l) (auto split: list.splits)

lemma split_on_join:
  "ls \<noteq> [] \<Longrightarrow> \<forall>l \<in> set ls. c \<notin> set l \<Longrightarrow> split_on c (join [c] ls) = ls"
proof (induction "[c]" ls rule: join.induct)
  case 1
  then show ?case by simp
next
  case (2 x)
  then show ?case by (simp add: split_on_plain)
next
  case (3 x y ys)
  then show ?case by (simp add: split_on_append_sep)
qed

lemma join_split_on: "join [c] (split_on c s) = s"
proof (induction s)
  case Nil
  then show ?case by simp
next
  case (Cons x s)
  then show ?case
    using split_on_not_Nil [of c s]
    by (cases "split_on c s"; cases "tl (split_on c s)") auto
qed

subsection \<open>The greedy matcher decides the patterns\<close>

lemma is_space_canonicalize: "is_space (canonicalize c) = is_space c"
  by (auto simp: canonicalize_def is_space_def split: option.splits if_splits)

lemma canonicalize_eq_space: "canonicalize d = canonicalize c \<Longrightarrow> is_space d = is_space c"
  by (metis is_space_canonicalize)

lemma heading_shape_solid:
  assumes "starts_solid ts" "heading_shape ts r"
  shows "r \<noteq> [] \<and> \<not> is_space (hd r)"
proof -
  from assms(1) obtain c l ts' where ts: "ts = Lit (c # l) # ts'" and c: "\<not> is_space c"
    by (cases ts rule: starts_solid.cases) simp_all
  from assms(2) have "heading_shape (Lit (c # l) # ts') r" by (simp only: ts)
  then have "\<exists>u r'. r = u @ r' \<and> length u = length (c # l)
      \<and> map canonicalize u = map canonicalize (c # l) \<and> heading_shape ts' r'"
    by (simp only: heading_shape.simps)
  then obtain u r' where r: "r = u @ r'" and len: "length u = length (c # l)"
    and eq: "map canonicalize u = map canonicalize (c # l)"
    by blast
  from len obtain d u' where u: "u = d # u'" by (cases u) auto
  with eq have "canonicalize d = canonicalize c" by simp
  with c have "\<not> is_space d" using canonicalize_eq_space by blast
  with r u show ?thesis by simp
qed

lemma dropWhile_ws_append:
  "list_all is_space w \<Longrightarrow> r \<noteq> [] \<and> \<not> is_space (hd r) \<Longrightarrow> dropWhile is_space (w @ r) = r"
  by (cases r) (simp_all add: dropWhile_append3 list_all_iff)

lemma takeWhile_all_space: "list_all is_space (takeWhile is_space s)"
  by (simp add: list_all_iff) (meson set_takeWhileD)

lemma heading_shape_Lit:
  "heading_shape (Lit l # ts) s =
    (length l \<le> length s \<and> map canonicalize (take (length l) s) = map canonicalize l
      \<and> heading_shape ts (drop (length l) s))"
proof
  assume "heading_shape (Lit l # ts) s"
  then obtain u r where "s = u @ r" "length u = length l"
    "map canonicalize u = map canonicalize l" "heading_shape ts r" by auto
  then show "length l \<le> length s \<and> map canonicalize (take (length l) s) = map canonicalize l
    \<and> heading_shape ts (drop (length l) s)" by simp
next
  assume a: "length l \<le> length s \<and> map canonicalize (take (length l) s) = map canonicalize l
    \<and> heading_shape ts (drop (length l) s)"
  have "s = take (length l) s @ drop (length l) s" by simp
  moreover have "length (take (length l) s) = length l" using a by simp
  ultimately show "heading_shape (Lit l # ts) s" using a
    unfolding heading_shape.simps by blast
qed

lemma heading_shape_WsStar:
  assumes "starts_solid ts"
  shows "heading_shape (WsStar # ts) s = heading_shape ts (dropWhile is_space s)"
proof
  assume "heading_shape (WsStar # ts) s"
  then obtain w r where s: "s = w @ r" and w: "list_all is_space w"
    and r: "heading_shape ts r" by auto
  from heading_shape_solid [OF assms r] w have "dropWhile is_space (w @ r) = r"
    by (rule dropWhile_ws_append [rotated])
  with s r show "heading_shape ts (dropWhile is_space s)" by simp
next
  assume a: "heading_shape ts (dropWhile is_space s)"
  have "s = takeWhile is_space s @ dropWhile is_space s" by simp
  then show "heading_shape (WsStar # ts) s" using a takeWhile_all_space [of s]
    unfolding heading_shape.simps by blast
qed

lemma heading_shape_WsPlus:
  assumes "starts_solid ts"
  shows "heading_shape (WsPlus # ts) s =
    (s \<noteq> [] \<and> is_space (hd s) \<and> heading_shape ts (dropWhile is_space s))"
proof
  assume "heading_shape (WsPlus # ts) s"
  then obtain w r where s: "s = w @ r" and w: "w \<noteq> []" "list_all is_space w"
    and r: "heading_shape ts r" by auto
  from heading_shape_solid [OF assms r] w(2) have "dropWhile is_space (w @ r) = r"
    by (rule dropWhile_ws_append [rotated])
  with s w r show "s \<noteq> [] \<and> is_space (hd s) \<and> heading_shape ts (dropWhile is_space s)"
    by (cases w) auto
next
  assume a: "s \<noteq> [] \<and> is_space (hd s) \<and> heading_shape ts (dropWhile is_space s)"
  have "s = takeWhile is_space s @ dropWhile is_space s" by simp
  moreover have "takeWhile is_space s \<noteq> []" using a by (cases s) auto
  ultimately show "heading_shape (WsPlus # ts) s" using a takeWhile_all_space [of s]
    unfolding heading_shape.simps by blast
qed

lemma match_toks_iff_shape: "greedy_ok ts \<Longrightarrow> match_toks ts s = heading_shape ts s"
proof (induction ts arbitrary: s)
  case Nil
  then show ?case by simp
next
  case (Cons t ts)
  show ?case
  proof (cases t)
    case (Lit l)
    with Cons show ?thesis by (simp add: heading_shape_Lit del: heading_shape.simps)
  next
    case WsPlus
    with Cons.prems have solid: "starts_solid ts" and ok: "greedy_ok ts" by simp_all
    from Cons.IH [OF ok] WsPlus show ?thesis
      by (cases s) (simp_all add: heading_shape_WsPlus [OF solid] del: heading_shape.simps)
  next
    case WsStar
    with Cons.prems have solid: "starts_solid ts" and ok: "greedy_ok ts" by simp_all
    from Cons.IH [OF ok] WsStar show ?thesis
      by (simp add: heading_shape_WsStar [OF solid] del: heading_shape.simps)
  qed
qed

lemma SECTION_PATTERNS_eq: "check_structure_SECTION_PATTERNS = REQUIRED_SECTIONS"
  by (simp add: check_structure_SECTION_PATTERNS_def REQUIRED_SECTIONS_def)

lemma heading_tokens_names:
  "map heading_tokens check_structure_REQUIRED_SECTIONS = REQUIRED_SECTIONS"
  by (simp add: check_structure_REQUIRED_SECTIONS_def REQUIRED_SECTIONS_def heading_tokens_def)

lemma greedy_ok_REQUIRED_SECTIONS: "\<forall>p \<in> set REQUIRED_SECTIONS. greedy_ok p"
  by (simp add: REQUIRED_SECTIONS_def is_space_def)

lemma length_REQUIRED_SECTIONS: "length REQUIRED_SECTIONS = 5"
  by (simp add: REQUIRED_SECTIONS_def)

lemma length_names: "length check_structure_REQUIRED_SECTIONS = 5"
  by (simp add: check_structure_REQUIRED_SECTIONS_def)

lemma is_variant_iff_match:
  assumes "i < 5"
  shows "is_variant (check_structure_REQUIRED_SECTIONS ! i) l
           = match_toks (REQUIRED_SECTIONS ! i) (js_trim l)"
proof -
  have "heading_tokens (check_structure_REQUIRED_SECTIONS ! i) = REQUIRED_SECTIONS ! i"
    using assms heading_tokens_names length_names
    by (metis nth_map)
  moreover have "greedy_ok (REQUIRED_SECTIONS ! i)"
    using assms greedy_ok_REQUIRED_SECTIONS length_REQUIRED_SECTIONS by simp
  ultimately show ?thesis
    by (simp add: is_variant_def match_toks_iff_shape)
qed

subsection \<open>Examples, evaluated\<close>

lemma example_doc_lines: "split_on CHR 0x0A example_doc = example_lines"
  by code_simp

lemma example_doc_valid: "hasValidStructure example_doc"
  by code_simp

lemma example_frontmatter_doc_block:
  "extractFrontmatter example_frontmatter_doc = Some (join [CHR 0x0A] [''title: x'', ''tags: [a, b]''])"
  by code_simp

subsection \<open>A line matches one pattern at most\<close>

lemma match_WsPlusD: "match_toks (WsPlus # ts) r \<Longrightarrow> match_toks ts (dropWhile is_space r)"
  by (cases r) auto

lemma match_first_word:
  assumes "match_toks (Lit ''##'' # WsPlus # Lit w # rest) s" "3 \<le> length w"
  shows "map canonicalize (take 3 (dropWhile is_space (drop 2 s))) = map canonicalize (take 3 w)"
proof -
  let ?r = "dropWhile is_space (drop 2 s)"
  from assms(1) have "match_toks (WsPlus # Lit w # rest) (drop 2 s)"
    by (simp add: numeral_2_eq_2 del: match_toks.simps(3))
  then have "match_toks (Lit w # rest) ?r" by (rule match_WsPlusD)
  then have "map canonicalize (take (length w) ?r) = map canonicalize w" by simp
  then have "take 3 (map canonicalize (take (length w) ?r)) = take 3 (map canonicalize w)"
    by simp
  with assms(2) show ?thesis by (simp add: take_map min_def)
qed

lemma match_heading_key:
  assumes "i < 5" "match_toks (REQUIRED_SECTIONS ! i) s"
  shows "map canonicalize (take 3 (dropWhile is_space (drop 2 s))) = heading_keys ! i"
proof -
  from assms(1) consider "i = 0" | "i = 1" | "i = 2" | "i = 3" | "i = 4" by linarith
  then show ?thesis
  proof cases
    case 1
    with assms(2) have "match_toks (Lit ''##'' # WsPlus # Lit ''Role''
        # [WsStar, Lit ''/'', WsStar, Lit ''Identity'']) s"
      by (simp add: REQUIRED_SECTIONS_def del: match_toks.simps)
    from match_first_word [OF this] 1 show ?thesis
      by (simp add: heading_keys_def canonicalize_def)
  next
    case 2
    with assms(2) have "match_toks (Lit ''##'' # WsPlus # Lit ''Context''
        # [WsStar, Lit ''&'', WsStar, Lit ''Tech'', WsPlus, Lit ''Stack'']) s"
      by (simp add: REQUIRED_SECTIONS_def del: match_toks.simps)
    from match_first_word [OF this] 2 show ?thesis
      by (simp add: heading_keys_def canonicalize_def)
  next
    case 3
    with assms(2) have "match_toks (Lit ''##'' # WsPlus # Lit ''Project''
        # [WsPlus, Lit ''Layout'']) s"
      by (simp add: REQUIRED_SECTIONS_def del: match_toks.simps)
    from match_first_word [OF this] 3 show ?thesis
      by (simp add: heading_keys_def canonicalize_def)
  next
    case 4
    with assms(2) have "match_toks (Lit ''##'' # WsPlus # Lit ''Coding''
        # [WsPlus, Lit ''Standards'']) s"
      by (simp add: REQUIRED_SECTIONS_def del: match_toks.simps)
    from match_first_word [OF this] 4 show ?thesis
      by (simp add: heading_keys_def canonicalize_def)
  next
    case 5
    with assms(2) have "match_toks (Lit ''##'' # WsPlus # Lit ''Workflow''
        # [WsStar, Lit ''&'', WsStar, Lit ''Commands'']) s"
      by (simp add: REQUIRED_SECTIONS_def del: match_toks.simps)
    from match_first_word [OF this] 5 show ?thesis
      by (simp add: heading_keys_def canonicalize_def)
  qed
qed

lemma distinct_heading_keys: "distinct heading_keys"
  by (simp add: heading_keys_def)

lemma match_one_pattern:
  assumes "i < 5" "j < 5" "match_toks (REQUIRED_SECTIONS ! i) s" "match_toks (REQUIRED_SECTIONS ! j) s"
  shows "i = j"
proof -
  have "heading_keys ! i = heading_keys ! j"
    using match_heading_key [OF assms(1,3)] match_heading_key [OF assms(2,4)] by simp
  moreover have "i < length heading_keys" "j < length heading_keys"
    using assms by (simp_all add: heading_keys_def)
  ultimately show ?thesis
    using distinct_heading_keys by (simp add: nth_eq_iff_index_eq)
qed

subsection \<open>What the structure script reports\<close>

lemma upt_5: "[0..<5] = [0, 1, 2, 3, 4]"
  by (simp add: upt_rec)

lemma check_structure_explicit:
  "check_structure doc =
     \<lparr>sections_valid = (\<forall>i<5. section_found REQUIRED_SECTIONS i doc),
      missingSections =
        (if section_found REQUIRED_SECTIONS 0 doc then [] else [''## Role / Identity''])
        @ (if section_found REQUIRED_SECTIONS 1 doc then [] else [''## Context & Tech Stack''])
        @ (if section_found REQUIRED_SECTIONS 2 doc then [] else [''## Project Layout''])
        @ (if section_found REQUIRED_SECTIONS 3 doc then [] else [''## Coding Standards''])
        @ (if section_found REQUIRED_SECTIONS 4 doc then [] else [''## Workflow & Commands''])\<rparr>"
proof -
  have all5: "(\<forall>i<5. section_found REQUIRED_SECTIONS i doc) =
     (section_found REQUIRED_SECTIONS 0 doc \<and> section_found REQUIRED_SECTIONS 1 doc
      \<and> section_found REQUIRED_SECTIONS 2 doc \<and> section_found REQUIRED_SECTIONS 3 doc
      \<and> section_found REQUIRED_SECTIONS 4 doc)"
  proof -
    have "(\<forall>i<5. section_found REQUIRED_SECTIONS i doc)
        = (\<forall>i \<in> set [0..<5]. section_found REQUIRED_SECTIONS i doc)" by auto
    also have "\<dots> = (section_found REQUIRED_SECTIONS 0 doc \<and> section_found REQUIRED_SECTIONS 1 doc
      \<and> section_found REQUIRED_SECTIONS 2 doc \<and> section_found REQUIRED_SECTIONS 3 doc
      \<and> section_found REQUIRED_SECTIONS 4 doc)"
      unfolding upt_5 by simp
    finally show ?thesis .
  qed
  show ?thesis
    unfolding all5
    by (simp add: check_structure_def SECTION_PATTERNS_eq found_sections_eq
        length_REQUIRED_SECTIONS upt_5 check_structure_REQUIRED_SECTIONS_def)
qed

lemma hasValidStructure_iff5:
  "hasValidStructure doc = (\<forall>i<5. section_found REQUIRED_SECTIONS i doc)"
  by (simp add: hasValidStructure_iff length_REQUIRED_SECTIONS)

lemma all_variants_iff:
  "(\<forall>name \<in> set check_structure_REQUIRED_SECTIONS.
      \<exists>l \<in> set (split_on CHR 0x0A doc). is_variant name l)
   = (\<forall>i<5. section_found REQUIRED_SECTIONS i doc)"
  by (simp add: all_set_conv_all_nth length_names is_variant_iff_match section_found_def
      list_ex_iff)

lemma section_found_removed:
  assumes "i < 5" "j < 5"
    and "split_on CHR 0x0A doc'
           = filter (\<lambda>l. \<not> is_variant (check_structure_REQUIRED_SECTIONS ! i) l)
               (split_on CHR 0x0A doc)"
  shows "section_found REQUIRED_SECTIONS j doc' = (j \<noteq> i \<and> section_found REQUIRED_SECTIONS j doc)"
  using assms match_one_pattern [of j i]
  by (auto simp: section_found_def list_ex_iff is_variant_iff_match)

lemma without_heading_lines:
  assumes "i < 5" "\<forall>j<5. section_found REQUIRED_SECTIONS j doc"
  shows "split_on CHR 0x0A (without_heading (check_structure_REQUIRED_SECTIONS ! i) doc)
           = filter (\<lambda>l. \<not> is_variant (check_structure_REQUIRED_SECTIONS ! i) l)
               (split_on CHR 0x0A doc)"
proof -
  let ?ls = "filter (\<lambda>l. \<not> is_variant (check_structure_REQUIRED_SECTIONS ! i) l)
               (split_on CHR 0x0A doc)"
  have "\<exists>j::nat. j < 5 \<and> j \<noteq> i"
    by (cases "i = 0") (auto intro: exI [of _ 1] exI [of _ 0])
  then obtain j where j: "j < 5" "j \<noteq> i" by blast
  with assms(2) obtain l where l: "l \<in> set (split_on CHR 0x0A doc)"
      "match_toks (REQUIRED_SECTIONS ! j) (js_trim l)"
    by (auto simp: section_found_def list_ex_iff)
  have "\<not> match_toks (REQUIRED_SECTIONS ! i) (js_trim l)"
    using match_one_pattern [OF assms(1) j(1) _ l(2)] j(2) by blast
  with l(1) assms(1) have "l \<in> set ?ls" by (simp add: is_variant_iff_match)
  then have "?ls \<noteq> []" by (metis empty_iff empty_set)
  moreover have "\<forall>k \<in> set ?ls. CHR 0x0A \<notin> set k"
    using split_on_no_sep [of _ "CHR 0x0A" doc] by auto
  ultimately show ?thesis
    unfolding without_heading_def by (rule split_on_join)
qed

lemma validateStructure_missing:
  "\<not> hasValidStructure' t \<Longrightarrow>
   validateStructure t =
     \<lparr>valid = False, errors = [''Missing one or more required sections''],
      warnings = [''Required sections: Role/Identity, Context & Tech Stack, Project Layout, Coding Standards, Workflow & Commands'']\<rparr>"
  by (simp add: validateStructure_def)

lemma removed_heading_reported:
  assumes i: "i < 5" and all: "\<forall>j<5. section_found REQUIRED_SECTIONS j doc"
  shows "check_structure (without_heading (check_structure_REQUIRED_SECTIONS ! i) doc)
           = \<lparr>sections_valid = False,
              missingSections = [check_structure_REQUIRED_SECTIONS ! i]\<rparr>"
proof -
  let ?d = "without_heading (check_structure_REQUIRED_SECTIONS ! i) doc"
  have found: "\<And>j. j < 5 \<Longrightarrow> section_found REQUIRED_SECTIONS j ?d = (j \<noteq> i)"
    using section_found_removed [OF i _ without_heading_lines [OF i all]] all by simp
  have f: "section_found REQUIRED_SECTIONS 0 ?d = (0 \<noteq> i)"
    "section_found REQUIRED_SECTIONS 1 ?d = (1 \<noteq> i)"
    "section_found REQUIRED_SECTIONS 2 ?d = (2 \<noteq> i)"
    "section_found REQUIRED_SECTIONS 3 ?d = (3 \<noteq> i)"
    "section_found REQUIRED_SECTIONS 4 ?d = (4 \<noteq> i)"
    by (simp_all add: found)
  have notall: "\<not> (\<forall>j<5. section_found REQUIRED_SECTIONS j ?d)"
    using found [OF i] i by blast
  from i consider "i = 0" | "i = 1" | "i = 2" | "i = 3" | "i = 4" by linarith
  then have "(if section_found REQUIRED_SECTIONS 0 ?d then [] else [''## Role / Identity''])
        @ (if section_found REQUIRED_SECTIONS 1 ?d then [] else [''## Context & Tech Stack''])
        @ (if section_found REQUIRED_SECTIONS 2 ?d then [] else [''## Project Layout''])
        @ (if section_found REQUIRED_SECTIONS 3 ?d then [] else [''## Coding Standards''])
        @ (if section_found REQUIRED_SECTIONS 4 ?d then [] else [''## Workflow & Commands''])
      = [check_structure_REQUIRED_SECTIONS ! i]"
    unfolding f by cases (simp_all add: check_structure_REQUIRED_SECTIONS_def)
  with notall show ?thesis
    by (simp only: check_structure_explicit)
qed

subsection \<open>The validator\<close>

lemma validateTemplate_strict:
  "validateTemplate t True =
     (case validateTemplate t False of
        Inl e \<Rightarrow> Inl e
      | Inr r \<Rightarrow> Inr \<lparr>valid = (errors r = [] \<and> warnings r = []),
                      errors = errors r @ warnings r, warnings = []\<rparr>)"
  by (simp add: validateTemplate_def Let_def split: sum.splits)

lemma validateTemplate_valid:
  "validateTemplate t strict = Inr r \<Longrightarrow> valid r = (errors r = [])"
  by (auto simp: validateTemplate_def Let_def split: sum.splits)

lemma array_includes_truthy:
  "array_includes xs v \<Longrightarrow> [] \<notin> set xs \<Longrightarrow> truthy v"
  by (cases v) auto

lemma category_errors_valid:
  "array_includes VALID_CATEGORIES v \<Longrightarrow> category_errors v = Inr []"
  using array_includes_truthy [of VALID_CATEGORIES v]
  by (simp add: category_errors_def VALID_CATEGORIES_def)

lemma difficulty_errors_valid:
  "array_includes VALID_DIFFICULTIES v \<Longrightarrow> difficulty_errors v = Inr []"
  using array_includes_truthy [of VALID_DIFFICULTIES v]
  by (simp add: difficulty_errors_def VALID_DIFFICULTIES_def)





subsection \<open>The filter\<close>

lemma filter_throwing_total:
  "\<forall>x \<in> set xs. p x = Inr (q x) \<Longrightarrow> filter_throwing p xs = Inr (filter q xs)"
  by (induction xs) auto

lemma keep_template_listed:
  assumes "supplied (tag f) \<longrightarrow> tags_listed t"
  shows "keep_template f t = Inr (satisfies f t)"
proof (cases "supplied (tag f) \<and> truthy (frontmatter t)")
  case True
  with assms obtain xs where "get_prop (frontmatter t) ''tags'' = JArr xs"
    by (cases "get_prop (frontmatter t) ''tags''") (auto simp: tags_listed_def)
  with True show ?thesis
    by (auto simp: keep_template_def satisfies_def)
next
  case False
  then show ?thesis
    by (auto simp: keep_template_def satisfies_def)
qed







subsection \<open>The frontmatter expression\<close>

lemma split_on_append:
  "split_on c (p @ c # s) = split_on c p @ split_on c s"
  by (induction p) (auto split: list.splits simp: split_on_not_Nil)

lemma hd_split_on: "hd (split_on c s) = takeWhile (\<lambda>x. x \<noteq> c) s"
  by (induction s) (auto split: list.splits simp: split_on_not_Nil)

lemma after_open_shape:
  "r \<in> set (after_open s) \<Longrightarrow> \<exists>w. s = w @ CHR 0x0A # r \<and> list_all is_space w"
proof (induction s)
  case Nil
  then show ?case by simp
next
  case (Cons c cs)
  show ?case
  proof (cases "r \<in> set (after_open cs)")
    case True
    with Cons obtain w where "cs = w @ CHR 0x0A # r" "list_all is_space w" "is_space c"
      by (auto split: if_splits)
    then have "c # cs = (c # w) @ CHR 0x0A # r \<and> list_all is_space (c # w)" by simp
    then show ?thesis by blast
  next
    case False
    with Cons.prems have "c = CHR 0x0A" "r = cs"
      by (auto split: if_splits)
    then have "c # cs = [] @ CHR 0x0A # r \<and> list_all is_space []" by simp
    then show ?thesis by blast
  qed
qed

lemma closes_line_shape:
  "closes_line s \<Longrightarrow> \<exists>w rest. s = w @ CHR 0x0A # rest \<and> list_all is_space w"
proof -
  assume "closes_line s"
  then have "CHR 0x0A \<in> set (takeWhile is_space s)" by (simp add: closes_line_def)
  then obtain w v where wv: "takeWhile is_space s = w @ CHR 0x0A # v"
    by (meson split_list)
  have "list_all is_space (takeWhile is_space s)"
    by (rule takeWhile_all_space)
  with wv have "list_all is_space w" by simp
  moreover have "s = w @ CHR 0x0A # (v @ dropWhile is_space s)"
    using takeWhile_dropWhile_id [of is_space s] wv by simp
  ultimately show ?thesis by blast
qed

lemma find_close_shape:
  "find_close r = Some b \<Longrightarrow>
   \<exists>w rest. r = b @ CHR 0x0A # ''---'' @ w @ CHR 0x0A # rest \<and> list_all is_space w"
proof (induction r arbitrary: b)
  case Nil
  then show ?case by simp
next
  case (Cons c cs)
  show ?case
  proof (cases "take 4 (c # cs) = CHR 0x0A # ''---'' \<and> closes_line (drop 4 (c # cs))")
    case True
    with Cons.prems have b: "b = []" by simp
    from True obtain w rest where "drop 4 (c # cs) = w @ CHR 0x0A # rest" "list_all is_space w"
      using closes_line_shape by blast
    moreover from True have "take 4 (c # cs) = CHR 0x0A # ''---''" by blast
    ultimately have "c # cs = (CHR 0x0A # ''---'') @ (w @ CHR 0x0A # rest)"
      by (metis append_take_drop_id)
    then have "c # cs = b @ CHR 0x0A # ''---'' @ w @ CHR 0x0A # rest"
      unfolding b by simp
    with \<open>list_all is_space w\<close> show ?thesis by blast
  next
    case False
    with Cons.prems obtain b' where b': "find_close cs = Some b'" "b = c # b'"
      by auto
    from Cons.IH [OF b'(1)] obtain w rest
      where "cs = b' @ CHR 0x0A # ''---'' @ w @ CHR 0x0A # rest" "list_all is_space w" by blast
    with b'(2) have "c # cs = b @ CHR 0x0A # ''---'' @ w @ CHR 0x0A # rest \<and> list_all is_space w"
      by simp
    then show ?thesis by blast
  qed
qed

lemma first_some_Some:
  "first_some f xs = Some y \<Longrightarrow> \<exists>x \<in> set xs. f x = Some y"
  by (induction xs) (auto split: option.splits)

lemma extractFrontmatter_shape:
  assumes "extractFrontmatter doc = Some b"
  shows "\<exists>w1 w2 rest. doc = ''---'' @ w1 @ CHR 0x0A # b @ CHR 0x0A # ''---'' @ w2 @ CHR 0x0A # rest
           \<and> list_all is_space w1 \<and> list_all is_space w2"
proof -
  from assms have dashes: "take 3 doc = ''---''"
    and fs: "first_some find_close (after_open (drop 3 doc)) = Some b"
    by (auto simp: extractFrontmatter_def split: if_splits)
  from first_some_Some [OF fs]
  obtain r where r: "r \<in> set (after_open (drop 3 doc))" "find_close r = Some b"
    by blast
  from after_open_shape [OF r(1)] obtain w1
    where w1: "drop 3 doc = w1 @ CHR 0x0A # r" "list_all is_space w1" by blast
  from find_close_shape [OF r(2)] obtain w2 rest
    where w2: "r = b @ CHR 0x0A # ''---'' @ w2 @ CHR 0x0A # rest" "list_all is_space w2" by blast
  have "doc = take 3 doc @ drop 3 doc" by simp
  then have "doc = ''---'' @ (w1 @ CHR 0x0A # r)"
    by (simp only: dashes w1(1))
  then have
    "doc = ''---'' @ w1 @ CHR 0x0A # b @ CHR 0x0A # ''---'' @ w2 @ CHR 0x0A # rest"
    unfolding w2(1) by simp
  with w1(2) w2(2) show ?thesis by blast
qed

lemma delimiter_line_takeWhile:
  assumes "list_all is_space w"
  shows "delimiter_line (takeWhile (\<lambda>x. x \<noteq> CHR 0x0A) (''---'' @ w @ CHR 0x0A # s))"
proof -
  have "takeWhile (\<lambda>x. x \<noteq> CHR 0x0A) (w @ CHR 0x0A # s) = takeWhile (\<lambda>x. x \<noteq> CHR 0x0A) w"
    by (induction w) auto
  moreover have "list_all is_space (takeWhile (\<lambda>x. x \<noteq> CHR 0x0A) w)"
    using assms by (auto simp: list_all_iff dest: set_takeWhileD)
  ultimately show ?thesis
    by (simp add: delimiter_line_def)
qed


lemma extractFrontmatter_has_pair:
  assumes "extractFrontmatter doc = Some b"
  shows "has_delimiter_pair doc"
proof -
  from extractFrontmatter_shape [OF assms] obtain w1 w2 rest
    where doc: "doc = ''---'' @ w1 @ CHR 0x0A # b @ CHR 0x0A # ''---'' @ w2 @ CHR 0x0A # rest"
      and w1: "list_all is_space w1" and w2: "list_all is_space w2" by blast
  let ?P = "''---'' @ w1 @ CHR 0x0A # b"
  let ?S = "''---'' @ w2 @ CHR 0x0A # rest"
  have "doc = ?P @ CHR 0x0A # ?S" using doc by simp
  then have lines: "split_on CHR 0x0A doc = split_on CHR 0x0A ?P @ split_on CHR 0x0A ?S"
    by (simp only: split_on_append)
  obtain p ps where P: "split_on CHR 0x0A ?P = p # ps"
    using split_on_not_Nil [of "CHR 0x0A" ?P] by (cases "split_on CHR 0x0A ?P") auto
  obtain q qs where S: "split_on CHR 0x0A ?S = q # qs"
    using split_on_not_Nil [of "CHR 0x0A" ?S] by (cases "split_on CHR 0x0A ?S") auto
  have "p = takeWhile (\<lambda>x. x \<noteq> CHR 0x0A) ?P"
    using hd_split_on [of "CHR 0x0A" ?P] P by simp
  then have p: "delimiter_line p"
    using delimiter_line_takeWhile [OF w1, of b] by simp
  have "q = takeWhile (\<lambda>x. x \<noteq> CHR 0x0A) ?S"
    using hd_split_on [of "CHR 0x0A" ?S] S by simp
  then have q: "delimiter_line q"
    using delimiter_line_takeWhile [OF w2, of rest] by simp
  have "split_on CHR 0x0A doc = p # (ps @ q # qs)"
    using lines P S by simp
  with p q show ?thesis
    by (simp add: has_delimiter_pair_def)
qed

subsection \<open>The line parser\<close>

















section \<open>The structure check, line order and repeated lines\<close>

text \<open>
  Claim C9. The structure check does not depend on the order of the lines nor on how often
  a line occurs. For every document, the flags of the five headings and the overall
  result stay the same when the lines of the document are put in any other order and
  joined again, and when any line of the document is written twice; so a heading that was
  found is still found when it is repeated.
\<close>

theorem structure_check_ignores_order_and_repeats:
  "(mset ls = mset (split_on CHR 0x0A doc) \<longrightarrow>
      found_sections REQUIRED_SECTIONS (join [CHR 0x0A] ls) = found_sections REQUIRED_SECTIONS doc
      \<and> hasValidStructure (join [CHR 0x0A] ls) = hasValidStructure doc)
   \<and> (split_on CHR 0x0A doc = xs @ l # ys \<longrightarrow>
      found_sections REQUIRED_SECTIONS (join [CHR 0x0A] (xs @ l # l # ys))
        = found_sections REQUIRED_SECTIONS doc
      \<and> hasValidStructure (join [CHR 0x0A] (xs @ l # l # ys)) = hasValidStructure doc)"
proof (intro conjI impI)
  assume perm: "mset ls = mset (split_on CHR 0x0A doc)"
  then have set_eq: "set ls = set (split_on CHR 0x0A doc)" by (rule mset_eq_setD)
  from perm have "ls \<noteq> []" using split_on_not_Nil [of "CHR 0x0A" doc] by auto
  moreover have "\<forall>l \<in> set ls. CHR 0x0A \<notin> set l"
    using set_eq split_on_no_sep by blast
  ultimately have "split_on CHR 0x0A (join [CHR 0x0A] ls) = ls" by (rule split_on_join)
  with set_eq show
    "found_sections REQUIRED_SECTIONS (join [CHR 0x0A] ls) = found_sections REQUIRED_SECTIONS doc"
    by (intro found_sections_set_cong) simp
  then show "hasValidStructure (join [CHR 0x0A] ls) = hasValidStructure doc"
    by (simp add: hasValidStructure_def)
next
  assume lines: "split_on CHR 0x0A doc = xs @ l # ys"
  have "\<forall>k \<in> set (xs @ l # l # ys). CHR 0x0A \<notin> set k"
    using split_on_no_sep [of _ "CHR 0x0A" doc] lines by auto
  then have "split_on CHR 0x0A (join [CHR 0x0A] (xs @ l # l # ys)) = xs @ l # l # ys"
    by (intro split_on_join) simp_all
  with lines show
    "found_sections REQUIRED_SECTIONS (join [CHR 0x0A] (xs @ l # l # ys))
       = found_sections REQUIRED_SECTIONS doc"
    by (intro found_sections_set_cong) auto
  then show "hasValidStructure (join [CHR 0x0A] (xs @ l # l # ys)) = hasValidStructure doc"
    by (simp add: hasValidStructure_def)
qed


theorem structure_check_ignores_order_and_repeats_witness:
  "mset (rev example_lines) = mset (split_on CHR 0x0A example_doc)
   \<and> split_on CHR 0x0A example_doc = [''# Title''] @ ''## Role / Identity'' # tl (tl example_lines)
   \<and> hasValidStructure example_doc
   \<and> hasValidStructure (join [CHR 0x0A] (rev example_lines))
   \<and> hasValidStructure
        (join [CHR 0x0A] ([''# Title''] @ ''## Role / Identity'' # ''## Role / Identity''
           # tl (tl example_lines)))"
proof -
  have perm: "mset (rev example_lines) = mset (split_on CHR 0x0A example_doc)"
    by (simp add: example_doc_lines)
  have dup: "split_on CHR 0x0A example_doc
      = [''# Title''] @ ''## Role / Identity'' # tl (tl example_lines)"
    by (simp add: example_doc_lines) (simp add: example_lines_def)
  from structure_check_ignores_order_and_repeats
    [of "rev example_lines" example_doc "[''# Title'']" "''## Role / Identity''"
        "tl (tl example_lines)"]
    perm dup example_doc_valid
  show ?thesis by blast
qed

section \<open>The required headings\<close>

text \<open>
  Claim C3, as amended. When every one of the five headings has a case and spacing
  variant among the lines of a document (at least one whitespace character after the two
  heading markers and between the words of the name, any whitespace around the
  separators, any letter case, anything after the name), \<^verbatim>\<open>hasValidStructure\<close> is true and the
  structure script reports the document valid with no missing section. Removing the
  lines of any one heading makes \<^verbatim>\<open>hasValidStructure\<close> false; the structure script then
  lists that heading, and no other, as missing; the validator of the command line tool
  reports the one general error and the list of all five sections as a warning, whichever
  heading it is.
\<close>

theorem required_headings_found_and_missing:
  assumes "\<forall>name \<in> set check_structure_REQUIRED_SECTIONS.
             \<exists>l \<in> set (split_on CHR 0x0A doc). is_variant name l"
  shows "hasValidStructure doc
     \<and> check_structure doc = \<lparr>sections_valid = True, missingSections = []\<rparr>
     \<and> (\<forall>name \<in> set check_structure_REQUIRED_SECTIONS.
          \<not> hasValidStructure (without_heading name doc)
          \<and> check_structure (without_heading name doc)
              = \<lparr>sections_valid = False, missingSections = [name]\<rparr>
          \<and> (\<forall>t. hasValidStructure' t = hasValidStructure (without_heading name doc) \<longrightarrow>
                validateStructure t =
                  \<lparr>valid = False, errors = [''Missing one or more required sections''],
                   warnings = [''Required sections: Role/Identity, Context & Tech Stack, Project Layout, Coding Standards, Workflow & Commands'']\<rparr>))"
proof -
  from assms have all: "\<forall>j<5. section_found REQUIRED_SECTIONS j doc"
    by (simp only: all_variants_iff)
  then have valid: "hasValidStructure doc" by (simp add: hasValidStructure_iff5)
  from all have report: "check_structure doc = \<lparr>sections_valid = True, missingSections = []\<rparr>"
    by (simp add: check_structure_explicit)
  have removed: "\<not> hasValidStructure (without_heading name doc)
          \<and> check_structure (without_heading name doc)
              = \<lparr>sections_valid = False, missingSections = [name]\<rparr>
          \<and> (\<forall>t. hasValidStructure' t = hasValidStructure (without_heading name doc) \<longrightarrow>
                validateStructure t =
                  \<lparr>valid = False, errors = [''Missing one or more required sections''],
                   warnings = [''Required sections: Role/Identity, Context & Tech Stack, Project Layout, Coding Standards, Workflow & Commands'']\<rparr>)"
    if "name \<in> set check_structure_REQUIRED_SECTIONS" for name
  proof -
    from that obtain i where i: "i < 5" and name: "name = check_structure_REQUIRED_SECTIONS ! i"
      by (auto simp: in_set_conv_nth length_names)
    have "section_found REQUIRED_SECTIONS i (without_heading name doc) = (i \<noteq> i)"
      unfolding name
      using section_found_removed [OF i i without_heading_lines [OF i all]] by simp
    with i have invalid: "\<not> hasValidStructure (without_heading name doc)"
      by (auto simp: hasValidStructure_iff5)
    moreover have "check_structure (without_heading name doc)
              = \<lparr>sections_valid = False, missingSections = [name]\<rparr>"
      unfolding name using i all by (rule removed_heading_reported)
    moreover have "\<forall>t. hasValidStructure' t = hasValidStructure (without_heading name doc) \<longrightarrow>
                validateStructure t =
                  \<lparr>valid = False, errors = [''Missing one or more required sections''],
                   warnings = [''Required sections: Role/Identity, Context & Tech Stack, Project Layout, Coding Standards, Workflow & Commands'']\<rparr>"
      using invalid by (simp add: validateStructure_missing)
    ultimately show ?thesis by blast
  qed
  from valid report removed show ?thesis by blast
qed

theorem required_headings_found_and_missing_witness:
  "hasValidStructure example_doc
   \<and> check_structure example_doc = \<lparr>sections_valid = True, missingSections = []\<rparr>
   \<and> split_on CHR 0x0A (without_heading ''## Project Layout'' example_doc)
       = take 3 example_lines @ drop 4 example_lines
   \<and> \<not> hasValidStructure (without_heading ''## Project Layout'' example_doc)
   \<and> check_structure (without_heading ''## Project Layout'' example_doc)
       = \<lparr>sections_valid = False, missingSections = [''## Project Layout'']\<rparr>"
proof -
  have all: "\<forall>j<5. section_found REQUIRED_SECTIONS j example_doc"
    using example_doc_valid by (simp add: hasValidStructure_iff5)
  then have hyp: "\<forall>name \<in> set check_structure_REQUIRED_SECTIONS.
             \<exists>l \<in> set (split_on CHR 0x0A example_doc). is_variant name l"
    by (simp only: all_variants_iff)
  have name: "check_structure_REQUIRED_SECTIONS ! 2 = ''## Project Layout''"
    by (simp add: check_structure_REQUIRED_SECTIONS_def)
  have mem: "''## Project Layout'' \<in> set check_structure_REQUIRED_SECTIONS"
    by (simp add: check_structure_REQUIRED_SECTIONS_def)
  have "split_on CHR 0x0A (without_heading ''## Project Layout'' example_doc)
      = filter (\<lambda>l. \<not> match_toks (REQUIRED_SECTIONS ! 2) (js_trim l))
          (split_on CHR 0x0A example_doc)"
    using without_heading_lines [of 2 example_doc] all
    by (simp add: name is_variant_iff_match [of 2, unfolded name])
  also have "\<dots> = take 3 example_lines @ drop 4 example_lines"
    by code_simp
  finally have lines: "split_on CHR 0x0A (without_heading ''## Project Layout'' example_doc)
       = take 3 example_lines @ drop 4 example_lines" .
  from required_headings_found_and_missing [OF hyp] mem lines show ?thesis by blast
qed

text \<open>
  The claim as it stands fails for the validator of the command line tool: for the example
  document without its Project Layout line and for the example document without its Coding
  Standards line the structure script names the missing heading, but \<^verbatim>\<open>validateStructure\<close>
  returns one and the same result, which names no heading as the missing one.
\<close>

theorem validateStructure_names_no_heading:
  "check_structure example_no_layout
      = \<lparr>sections_valid = False, missingSections = [''## Project Layout'']\<rparr>
   \<and> check_structure example_no_standards
      = \<lparr>sections_valid = False, missingSections = [''## Coding Standards'']\<rparr>
   \<and> validateStructure (plain_template ''a'' example_no_layout)
      = \<lparr>valid = False, errors = [''Missing one or more required sections''],
         warnings = [''Required sections: Role/Identity, Context & Tech Stack, Project Layout, Coding Standards, Workflow & Commands'']\<rparr>
   \<and> validateStructure (plain_template ''b'' example_no_standards)
      = validateStructure (plain_template ''a'' example_no_layout)"
  by code_simp

section \<open>Strict mode\<close>

text \<open>
  Claim C4. The classification of a record never improves under strict mode. Whenever
  \<^verbatim>\<open>validateTemplate\<close> with \<^verbatim>\<open>strict = false\<close> classifies a record, it classifies the record
  with \<^verbatim>\<open>strict = true\<close> as well; a record that was invalid stays invalid, and in the order
  invalid, valid with warnings, valid the strict classification is never above the other.
\<close>

theorem strict_mode_monotone:
  assumes "validateTemplate t False = Inr r"
  shows "\<exists>r'. validateTemplate t True = Inr r'
           \<and> (classify r = Invalid \<longrightarrow> classify r' = Invalid)
           \<and> rank (classify r') \<le> rank (classify r)"
proof -
  let ?r' = "\<lparr>valid = (errors r = [] \<and> warnings r = []),
             errors = errors r @ warnings r, warnings = []\<rparr>"
  have strict: "validateTemplate t True = Inr ?r'"
    using assms by (simp add: validateTemplate_strict)
  have v: "valid r = (errors r = [])"
    using assms by (rule validateTemplate_valid)
  have "classify r = Invalid \<longrightarrow> classify ?r' = Invalid"
    using v by (auto simp: classify_def split: if_splits)
  moreover have "rank (classify ?r') \<le> rank (classify r)"
    using v by (auto simp: classify_def)
  ultimately show ?thesis using strict by blast
qed

theorem strict_mode_monotone_witness:
  "validateTemplate example_empty_tags False
     = Inr \<lparr>valid = True, errors = [],
            warnings = [''Field '' @ quoted ''tags'' @ '' is empty'']\<rparr>
   \<and> (\<exists>r'. validateTemplate example_empty_tags True = Inr r' \<and> classify r' = Invalid)
   \<and> (\<exists>r. validateTemplate (plain_template ''a'' example_no_layout) False = Inr r
          \<and> classify r = Invalid)
   \<and> (\<exists>r'. validateTemplate (plain_template ''a'' example_no_layout) True = Inr r'
          \<and> classify r' = Invalid)"
proof -
  let ?r = "\<lparr>valid = True, errors = [],
            warnings = [''Field '' @ quoted ''tags'' @ '' is empty'']\<rparr>"
  let ?q = "\<lparr>valid = False, errors = [''Missing one or more required sections''],
            warnings = [''No frontmatter found (will be added in Phase 4)'',
              ''Required sections: Role/Identity, Context & Tech Stack, Project Layout, Coding Standards, Workflow & Commands'']\<rparr>"
  have h: "validateTemplate example_empty_tags False = Inr ?r"
    by code_simp
  have c: "classify ?r = ValidWithWarnings"
    by (simp add: classify_def)
  have h2: "validateTemplate (plain_template ''a'' example_no_layout) False = Inr ?q"
    by code_simp
  have c2: "classify ?q = Invalid"
    by (simp add: classify_def)
  have s: "validateTemplate example_empty_tags True
      = Inr \<lparr>valid = False, errors = [''Field '' @ quoted ''tags'' @ '' is empty''],
             warnings = []\<rparr>"
    by code_simp
  have "\<exists>r'. validateTemplate example_empty_tags True = Inr r' \<and> classify r' = Invalid"
    using s by (simp add: classify_def)
  moreover from strict_mode_monotone [OF h2] c2
  have "\<exists>r'. validateTemplate (plain_template ''a'' example_no_layout) True = Inr r'
          \<and> classify r' = Invalid" by blast
  ultimately show ?thesis using h h2 c2 by blast
qed

text \<open>
  Claim C5. A record whose frontmatter is present with a title, a valid category, a valid
  difficulty and an empty list of tags, and whose document holds all five headings (the
  structure flag of the record being the result of the structure check on its content, as
  \<^verbatim>\<open>loadTemplate\<close> sets it), is valid with at least one warning when \<^verbatim>\<open>strict = false\<close> and
  invalid when \<^verbatim>\<open>strict = true\<close>.
\<close>

theorem empty_tags_warning_and_strict_invalid:
  assumes "truthy (frontmatter t)"
    and "truthy (get_prop (frontmatter t) ''title'')"
    and "array_includes VALID_CATEGORIES (get_prop (frontmatter t) ''category'')"
    and "get_prop (frontmatter t) ''tags'' = JArr []"
    and "array_includes VALID_DIFFICULTIES (get_prop (frontmatter t) ''difficulty'')"
    and "hasValidStructure' t = hasValidStructure (content t)"
    and "\<forall>name \<in> set check_structure_REQUIRED_SECTIONS.
           \<exists>l \<in> set (split_on CHR 0x0A (content t)). is_variant name l"
  shows "\<exists>r r'. validateTemplate t False = Inr r \<and> valid r \<and> errors r = []
           \<and> warnings r \<noteq> [] \<and> classify r = ValidWithWarnings
           \<and> validateTemplate t True = Inr r' \<and> \<not> valid r' \<and> classify r' = Invalid"
proof -
  from assms(7) have "hasValidStructure (content t)"
    by (simp only: all_variants_iff hasValidStructure_iff5)
  with assms(6) have flag: "hasValidStructure' t" by simp
  let ?w = "[''Field '' @ quoted ''tags'' @ '' is empty'']
            @ optional_array_warnings ''requires'' (get_prop (frontmatter t) ''requires'')
            @ optional_array_warnings ''combinableWith''
                (get_prop (frontmatter t) ''combinableWith'')"
  have fm: "validateFrontmatter (frontmatter t)
      = Inr \<lparr>valid = True, errors = [], warnings = ?w\<rparr>"
    using assms(1-5)
    by (simp add: validateFrontmatter_def category_errors_valid difficulty_errors_valid
        title_errors_def tags_messages_def)
  have lax: "validateTemplate t False = Inr \<lparr>valid = True, errors = [], warnings = ?w\<rparr>"
    using fm flag by (simp add: validateTemplate_def validateStructure_def)
  have strict: "validateTemplate t True = Inr \<lparr>valid = False, errors = ?w, warnings = []\<rparr>"
    using lax by (simp add: validateTemplate_strict)
  show ?thesis
    unfolding lax strict by (simp add: classify_def)
qed

theorem empty_tags_warning_and_strict_invalid_witness:
  "validateTemplate example_empty_tags False
     = Inr \<lparr>valid = True, errors = [],
            warnings = [''Field '' @ quoted ''tags'' @ '' is empty'']\<rparr>
   \<and> (\<exists>r'. validateTemplate example_empty_tags True = Inr r' \<and> \<not> valid r'
          \<and> classify r' = Invalid)"
proof -
  have valid: "hasValidStructure (content example_empty_tags)"
    using example_doc_valid by (simp add: example_empty_tags_def)
  then have headings: "\<forall>name \<in> set check_structure_REQUIRED_SECTIONS.
      \<exists>l \<in> set (split_on CHR 0x0A (content example_empty_tags)). is_variant name l"
    by (simp only: all_variants_iff hasValidStructure_iff5)
  have "truthy (frontmatter example_empty_tags)"
    and "truthy (get_prop (frontmatter example_empty_tags) ''title'')"
    and "array_includes VALID_CATEGORIES (get_prop (frontmatter example_empty_tags) ''category'')"
    and "get_prop (frontmatter example_empty_tags) ''tags'' = JArr []"
    and "array_includes VALID_DIFFICULTIES
           (get_prop (frontmatter example_empty_tags) ''difficulty'')"
    and "hasValidStructure' example_empty_tags = hasValidStructure (content example_empty_tags)"
    by (simp_all add: example_empty_tags_def VALID_CATEGORIES_def VALID_DIFFICULTIES_def)
  from empty_tags_warning_and_strict_invalid [OF this headings]
  obtain r r' where "validateTemplate example_empty_tags False = Inr r"
    and "validateTemplate example_empty_tags True = Inr r'" "\<not> valid r'"
    "classify r' = Invalid" by blast
  moreover have "validateTemplate example_empty_tags False
     = Inr \<lparr>valid = True, errors = [],
            warnings = [''Field '' @ quoted ''tags'' @ '' is empty'']\<rparr>"
    by code_simp
  ultimately show ?thesis by blast
qed




section \<open>The result of the filter\<close>

text \<open>
  What \<^verbatim>\<open>filterTemplates\<close> returns, read off the code. Where a tag criterion is supplied
  only for lists in which the tags of every record with metadata are a list, the result is
  the records that have metadata and satisfy every supplied criterion, in the order of
  the input; a criterion given as the empty string counts as not supplied. When no
  criterion is supplied the result is the records that have metadata.
\<close>

lemma filterTemplates_selects:
  assumes "supplied (tag f) \<longrightarrow> (\<forall>t \<in> set ts. tags_listed t)"
  shows "filterTemplates ts f = Inr (filter (satisfies f) ts)
     \<and> (\<not> supplied (category f) \<and> \<not> supplied (tag f) \<and> \<not> supplied (difficulty f) \<longrightarrow>
          filterTemplates ts f = Inr (filter (\<lambda>t. truthy (frontmatter t)) ts))"
proof -
  have "\<forall>t \<in> set ts. keep_template f t = Inr (satisfies f t)"
    using assms by (simp add: keep_template_listed)
  then have sel: "filterTemplates ts f = Inr (filter (satisfies f) ts)"
    unfolding filterTemplates_def by (rule filter_throwing_total)
  moreover have "filter (satisfies f) ts = filter (\<lambda>t. truthy (frontmatter t)) ts"
    if "\<not> supplied (category f) \<and> \<not> supplied (tag f) \<and> \<not> supplied (difficulty f)"
  proof -
    from that have "satisfies f = (\<lambda>t. truthy (frontmatter t))"
      by (auto simp: satisfies_def fun_eq_iff)
    then show ?thesis by simp
  qed
  ultimately show ?thesis by simp
qed

lemma filterTemplates_selects_example:
  "tags_listed example_react \<and> tags_listed example_fastapi
   \<and> tags_listed (plain_template ''notes'' example_doc)
   \<and> filterTemplates [example_fastapi, plain_template ''notes'' example_doc, example_react]
        \<lparr>category = Some ''framework'', tag = Some ''frontend'', difficulty = Some []\<rparr>
      = Inr [example_react]"
proof -
  let ?ts = "[example_fastapi, plain_template ''notes'' example_doc, example_react]"
  let ?f = "\<lparr>category = Some ''framework'', tag = Some ''frontend'', difficulty = Some []\<rparr>"
  have listed: "tags_listed example_react" "tags_listed example_fastapi"
    "tags_listed (plain_template ''notes'' example_doc)"
    by (simp_all add: tags_listed_def example_react_def example_fastapi_def plain_template_def)
  then have hyp: "supplied (tag ?f) \<longrightarrow> (\<forall>t \<in> set ?ts. tags_listed t)" by simp
  have "filter (satisfies ?f) ?ts = [example_react]"
    by (simp add: satisfies_def example_react_def example_fastapi_def plain_template_def)
  with filterTemplates_selects [OF hyp] listed show ?thesis by simp
qed

text \<open>
  A tag criterion on tags that are not a list: it throws on a record whose metadata has
  no tags, and it matches a part of a word when the tags are written as one string.
\<close>

lemma filterTemplates_tag_on_other_shapes:
  "filterTemplates [example_no_tags]
        \<lparr>category = None, tag = Some ''frontend'', difficulty = None\<rparr> = Inl TypeError
   \<and> filterTemplates [example_string_tags]
        \<lparr>category = None, tag = Some ''front'', difficulty = None\<rparr> = Inr [example_string_tags]"
  by code_simp

text \<open>
  Claim C1 fails on the code. With no criterion supplied every record is to be returned,
  the records without metadata among them. \<^verbatim>\<open>filterTemplates\<close> drops them: its callback
  returns false for a record without frontmatter before it looks at any criterion. Of a
  list of two records, one without frontmatter, the bare filter returns the other one
  only, and of the record without frontmatter alone it returns nothing, although the
  validator accepts that record as valid, with a warning.
\<close>

theorem filterTemplates_drops_records_without_metadata:
  "filterTemplates [plain_template ''notes'' example_doc, example_react] no_filters
     = Inr [example_react]
   \<and> filterTemplates [plain_template ''notes'' example_doc] no_filters = Inr []
   \<and> validateTemplate (plain_template ''notes'' example_doc) False
     = Inr \<lparr>valid = True, errors = [],
            warnings = [''No frontmatter found (will be added in Phase 4)'']\<rparr>"
  by code_simp




section \<open>Documents without frontmatter\<close>

text \<open>
  Claim C7. For every document that does not begin with a line holding only the three
  dashes, followed later by another such line (a line counts as holding only the dashes
  when nothing but whitespace follows them), \<^verbatim>\<open>extractFrontmatter\<close> returns null. The
  function is total and has no error result: nothing in it can throw.
\<close>

theorem no_delimiter_pair_no_frontmatter:
  assumes "\<not> has_delimiter_pair doc"
  shows "extractFrontmatter doc = None"
proof (cases "extractFrontmatter doc")
  case None
  then show ?thesis .
next
  case (Some b)
  then have "has_delimiter_pair doc" by (rule extractFrontmatter_has_pair)
  with assms show ?thesis by simp
qed

theorem no_delimiter_pair_no_frontmatter_witness:
  "\<not> has_delimiter_pair example_late_dashes \<and> extractFrontmatter example_late_dashes = None
   \<and> \<not> has_delimiter_pair example_doc \<and> extractFrontmatter example_doc = None"
proof -
  have a: "\<not> has_delimiter_pair example_late_dashes" by code_simp
  have b: "\<not> has_delimiter_pair example_doc" by code_simp
  from no_delimiter_pair_no_frontmatter [OF a] no_delimiter_pair_no_frontmatter [OF b] a b
  show ?thesis by blast
qed

section \<open>The identifier of a record\<close>

text \<open>
  Claim C8 fails on the code. \<^verbatim>\<open>loadTemplate\<close> removes the first \<^verbatim>\<open>.md\<close> of the file name,
  wherever it stands: for the file \<^verbatim>\<open>my.mdfile.md\<close> the identifier is \<^verbatim>\<open>myfile.md\<close>, not the
  name without its extension, \<^verbatim>\<open>my.mdfile\<close>.
\<close>

theorem loadTemplate_id_removes_first_md:
  "\<exists>t. loadTemplate yaml_load (\<lambda>p. Inr example_doc) ''templates/languages/my.mdfile.md'' = Inr t
       \<and> filename t = ''my.mdfile.md'' \<and> id' t = ''myfile.md'' \<and> id' t \<noteq> ''my.mdfile''"
proof -
  have none: "extractFrontmatter example_doc = None" by code_simp
  have name: "basename ''templates/languages/my.mdfile.md'' = ''my.mdfile.md''" by code_simp
  have ident: "replace_first ''.md'' [] ''my.mdfile.md'' = ''myfile.md''" by code_simp
  show ?thesis
    by (simp add: loadTemplate_def none name ident)
qed

section \<open>The frontmatter parsers\<close>




end
